theory Spec2Isabelle
  imports Complex_Main
begin

section \<open>Data model of \<open>src/communication/scrollsguide.py\<close>\<close>

text \<open>
  The value \<open>json.loads\<close> returns: Python's \<open>None\<close>, \<open>bool\<close>, \<open>int\<close>, \<open>float\<close>,
  \<open>str\<close>, \<open>list\<close> and \<open>dict\<close>. A dict is an association list in insertion order; a key
  is looked up with \<open>map_of\<close>. The code modelled here never inspects a number.
  Strings are ASCII text.
\<close>

datatype json =
    JNull
  | JBool bool
  | JInt int
  | JFloat rat
  | JStr string
  | JArr "json list"
  | JObj "(string \<times> json) list"

text \<open>
  The exceptions the module can raise: its own two classes, and the built-in ones of the
  operations it uses. \<open>MultipleScrollsFound\<close> carries its two attributes, \<open>scrolls\<close> (the
  names) and \<open>search_term\<close>. \<open>ClientError\<close> stands for a failure of the HTTP request or of
  reading its body.
\<close>

datatype error =
    ClientError
  | JSONDecodeError
  | KeyError string
  | TypeError
  | AttributeError
  | ValueError
  | ScrollNotFound
  | MultipleScrollsFound "json list" string

text \<open>The attributes \<open>Scroll.__init__\<close> sets, in its order (\<open>_id\<close>, \<open>_name\<close>, ...).\<close>

record scroll =
  scroll_id :: json
  scroll_name :: json
  scroll_description :: json
  scroll_kind :: json
  scroll_types :: json
  scroll_growth_cost :: json
  scroll_order_cost :: json
  scroll_energy_cost :: json
  scroll_decay_cost :: json
  scroll_attack :: json
  scroll_countdown :: json
  scroll_health :: json
  scroll_flavor :: json
  scroll_rarity :: json
  scroll_set :: json
  scroll_passive_rules :: json
  scroll_abilities :: json

text \<open>
  The class attribute \<open>_scrolls_db\<close> (\<open>None\<close> until the first load, then a dict from
  lowercased name to \<open>Scroll\<close>, in insertion order), and the number of HTTP requests
  issued so far, which makes a repeated fetch visible.
\<close>

record state =
  scrolls_db :: "(string \<times> scroll) list option"
  requests :: nat

text \<open>
  What one \<open>GET http://a.scrollsguide.com/scrolls\<close> gives: the request or the reading of
  the body fails, \<open>json.loads\<close> rejects the text, or \<open>json.loads\<close> returns a value. The
  remote service is a function from the request's number to its outcome.
\<close>

datatype response = RequestFailed | NotJSON | Document json

section \<open>Built-in operations\<close>

text \<open>\<open>str.lower\<close> on ASCII text: the letters A to Z move to a to z.\<close>

definition lower_char :: "char \<Rightarrow> char" where
  "lower_char c =
     (if (65::nat) \<le> of_char c \<and> of_char c \<le> (90::nat)
      then char_of (of_char c + (32::nat)) else c)"

definition lower :: "string \<Rightarrow> string" where
  "lower s = map lower_char s"

text \<open>
  \<open>d[k] = v\<close> on a dict: the value of a present key is replaced where the key stands, a new
  key goes to the end.
\<close>

primrec setitem :: "'k \<Rightarrow> 'v \<Rightarrow> ('k \<times> 'v) list \<Rightarrow> ('k \<times> 'v) list" where
  "setitem k v [] = [(k, v)]"
| "setitem k v (p # ps) = (if fst p = k then (k, v) # ps else p # setitem k v ps)"

text \<open>\<open>d[k]\<close> on a dict raises \<open>KeyError\<close> for a missing key; \<open>subscript\<close> is \<open>d[k]\<close> followed
  by the rest of the computation.\<close>

definition getitem :: "(string \<times> 'v) list \<Rightarrow> string \<Rightarrow> error + 'v" where
  "getitem d k = (case map_of d k of None \<Rightarrow> Inl (KeyError k) | Some v \<Rightarrow> Inr v)"

definition subscript :: "(string \<times> json) list \<Rightarrow> string \<Rightarrow> (json \<Rightarrow> error + 'a) \<Rightarrow> error + 'a" where
  "subscript d k f = (case getitem d k of Inl e \<Rightarrow> Inl e | Inr v \<Rightarrow> f v)"

text \<open>\<open>d.get(k, default)\<close>.\<close>

definition get_default :: "(string \<times> json) list \<Rightarrow> string \<Rightarrow> json \<Rightarrow> json" where
  "get_default d k dflt = (case map_of d k of None \<Rightarrow> dflt | Some v \<Rightarrow> v)"

text \<open>
  What a \<open>for\<close> loop iterates over: the elements of a list, the keys of a dict, the
  characters of a string; any other JSON value is not iterable.
\<close>

fun iterate :: "json \<Rightarrow> error + json list" where
  "iterate (JArr xs) = Inr xs"
| "iterate (JObj kvs) = Inr (map (\<lambda>kv. JStr (fst kv)) kvs)"
| "iterate (JStr s) = Inr (map (\<lambda>c. JStr [c]) s)"
| "iterate _ = Inl TypeError"

text \<open>
  \<open>round(x, 2)\<close>. \<open>fuzz.partial_ratio\<close> returns a Python \<open>int\<close> between 0 and 100, and
  \<open>round\<close> of an \<open>int\<close> to two decimals is that \<open>int\<close>.
\<close>

definition round2 :: "int \<Rightarrow> int" where
  "round2 score = score"

text \<open>\<open>sep.join(xs)\<close>.\<close>

fun join :: "string \<Rightarrow> string list \<Rightarrow> string" where
  "join sep [] = []"
| "join sep [x] = x"
| "join sep (x # y # ys) = x @ sep @ join sep (y # ys)"

text \<open>\<open>join\<close> wants every element to be a \<open>str\<close>.\<close>

fun strs :: "json list \<Rightarrow> error + string list" where
  "strs [] = Inr []"
| "strs (JStr s # xs) = (case strs xs of Inl e \<Rightarrow> Inl e | Inr ss \<Rightarrow> Inr (s # ss))"
| "strs (_ # xs) = Inl TypeError"

section \<open>\<open>MultipleScrollsFound.__str__\<close>\<close>

definition MultipleScrollsFound_str :: "json list \<Rightarrow> string \<Rightarrow> error + string" where
  "MultipleScrollsFound_str scrolls search_term =
     (if length scrolls > 5
      then Inr (''Too many scrolls matches your query '' @ [CHR 0x27] @ search_term @ [CHR 0x27])
      else (case strs scrolls of
              Inl e \<Rightarrow> Inl e
            | Inr names \<Rightarrow>
                Inr (''Multiple scrolls match '' @ [CHR 0x27] @ search_term @ [CHR 0x27] @ ''z: ''
                       @ join '', '' names)))"

section \<open>\<open>Scroll.__init__\<close>\<close>

text \<open>
  Fifteen fields are read with \<open>json_data[...]\<close>, in this order, and two with
  \<open>json_data.get(..., [])\<close>. Subscripting a value that is not a dict by a string raises
  \<open>TypeError\<close>.
\<close>

definition Scroll_init :: "json \<Rightarrow> error + scroll" where
  "Scroll_init json_data =
     (case json_data of
        JObj d \<Rightarrow>
          subscript d ''id'' (\<lambda>v_id.
          subscript d ''name'' (\<lambda>v_name.
          subscript d ''description'' (\<lambda>v_description.
          subscript d ''kind'' (\<lambda>v_kind.
          subscript d ''types'' (\<lambda>v_types.
          subscript d ''costgrowth'' (\<lambda>v_growth.
          subscript d ''costorder'' (\<lambda>v_order.
          subscript d ''costenergy'' (\<lambda>v_energy.
          subscript d ''costdecay'' (\<lambda>v_decay.
          subscript d ''ap'' (\<lambda>v_ap.
          subscript d ''ac'' (\<lambda>v_ac.
          subscript d ''hp'' (\<lambda>v_hp.
          subscript d ''flavor'' (\<lambda>v_flavor.
          subscript d ''rarity'' (\<lambda>v_rarity.
          subscript d ''set'' (\<lambda>v_set.
            Inr \<lparr> scroll_id = v_id, scroll_name = v_name,
                  scroll_description = v_description, scroll_kind = v_kind,
                  scroll_types = v_types, scroll_growth_cost = v_growth,
                  scroll_order_cost = v_order, scroll_energy_cost = v_energy,
                  scroll_decay_cost = v_decay, scroll_attack = v_ap,
                  scroll_countdown = v_ac, scroll_health = v_hp,
                  scroll_flavor = v_flavor, scroll_rarity = v_rarity,
                  scroll_set = v_set,
                  scroll_passive_rules = get_default d ''passiverules'' (JArr []),
                  scroll_abilities = get_default d ''abilities'' (JArr []) \<rparr>)))))))))))))))
      | _ \<Rightarrow> Inl TypeError)"

section \<open>\<open>Scroll.__load_scrolls\<close>\<close>

text \<open>
  The body of the \<open>for\<close> loop: build the \<open>Scroll\<close>, lowercase its name (only a \<open>str\<close> has
  \<open>lower\<close>), store it. An exception leaves the dict as the loop has filled it so far.
\<close>

fun load_loop :: "json list \<Rightarrow> (string \<times> scroll) list \<Rightarrow> (error + unit) \<times> (string \<times> scroll) list" where
  "load_loop [] db = (Inr (), db)"
| "load_loop (scroll_data # rest) db =
     (case Scroll_init scroll_data of
        Inl e \<Rightarrow> (Inl e, db)
      | Inr scroll \<Rightarrow>
          (case scroll_name scroll of
             JStr n \<Rightarrow> load_loop rest (setitem (lower n) scroll db)
           | _ \<Rightarrow> (Inl AttributeError, db)))"

text \<open>
  One request is issued. \<open>_scrolls_db\<close> is set to the empty dict once the text is parsed,
  before \<open>data.get\<close> is evaluated (only a dict has \<open>get\<close>) and before the loop.
\<close>

definition load_scrolls :: "(nat \<Rightarrow> response) \<Rightarrow> state \<Rightarrow> (error + unit) \<times> state" where
  "load_scrolls http st =
     (let st1 = st\<lparr>requests := Suc (requests st)\<rparr> in
      case http (requests st) of
        RequestFailed \<Rightarrow> (Inl ClientError, st1)
      | NotJSON \<Rightarrow> (Inl JSONDecodeError, st1)
      | Document data \<Rightarrow>
          (let st2 = st1\<lparr>scrolls_db := Some []\<rparr> in
           case data of
             JObj d \<Rightarrow>
               (case iterate (get_default d ''data'' (JArr [])) of
                  Inl e \<Rightarrow> (Inl e, st2)
                | Inr items \<Rightarrow>
                    (case load_loop items [] of
                       (r, db) \<Rightarrow> (r, st2\<lparr>scrolls_db := Some db\<rparr>)))
           | _ \<Rightarrow> (Inl AttributeError, st2)))"

section \<open>\<open>Scroll.get_by_name\<close>\<close>

text \<open>
  The fuzzy search takes the scorer \<open>fuzz.partial_ratio\<close> of the fuzzywuzzy library as
  the parameter \<open>partial_ratio\<close>. The loop over the keys fills \<open>name_scores\<close>; the
  threshold is the number the caller passed, compared with the score as it is.
\<close>

fun score_loop :: "(string \<Rightarrow> string \<Rightarrow> int) \<Rightarrow> string \<Rightarrow> rat \<Rightarrow> string list
    \<Rightarrow> (string \<times> int) list \<Rightarrow> (string \<times> int) list" where
  "score_loop partial_ratio query threshold [] name_scores = name_scores"
| "score_loop partial_ratio query threshold (name # rest) name_scores =
     (let score = round2 (partial_ratio query name) in
      score_loop partial_ratio query threshold rest
        (if threshold \<le> of_int score then setitem name score name_scores
         else name_scores))"

definition name_scores :: "(string \<Rightarrow> string \<Rightarrow> int) \<Rightarrow> string \<Rightarrow> rat \<Rightarrow> (string \<times> scroll) list
    \<Rightarrow> (string \<times> int) list" where
  "name_scores partial_ratio query threshold db =
     score_loop partial_ratio query threshold (map fst db) []"

text \<open>\<open>max(name_scores.values())\<close>: \<open>max\<close> of an empty sequence raises \<open>ValueError\<close>.\<close>

definition max_score :: "(string \<times> int) list \<Rightarrow> error + int" where
  "max_score ns = (case map snd ns of [] \<Rightarrow> Inl ValueError | v # vs \<Rightarrow> Inr (fold max vs v))"

definition closest_items :: "(string \<times> int) list \<Rightarrow> int \<Rightarrow> string list" where
  "closest_items ns m = map fst (filter (\<lambda>p. snd p = m) ns)"

text \<open>\<open>[cls._scrolls_db[scroll_name] for scroll_name in closest_items]\<close>.\<close>

fun getitems :: "(string \<times> scroll) list \<Rightarrow> string list \<Rightarrow> error + scroll list" where
  "getitems db [] = Inr []"
| "getitems db (k # ks) =
     (case getitem db k of
        Inl e \<Rightarrow> Inl e
      | Inr s \<Rightarrow> (case getitems db ks of Inl e \<Rightarrow> Inl e | Inr ss \<Rightarrow> Inr (s # ss)))"

text \<open>
  The function from the test \<open>query in cls._scrolls_db.keys()\<close> on; \<open>query\<close> is already
  lowercased.
\<close>

definition search :: "(string \<Rightarrow> string \<Rightarrow> int) \<Rightarrow> (string \<times> scroll) list \<Rightarrow> string \<Rightarrow> rat
    \<Rightarrow> error + scroll" where
  "search partial_ratio db query threshold =
     (case map_of db query of
        Some s \<Rightarrow> Inr s
      | None \<Rightarrow>
          (let ns = name_scores partial_ratio query threshold db in
           case max_score ns of
             Inl e \<Rightarrow> Inl e
           | Inr m \<Rightarrow>
               (case closest_items ns m of
                  [] \<Rightarrow> Inl ScrollNotFound
                | [n] \<Rightarrow> getitem db n
                | n # n' # others \<Rightarrow>
                    (case getitems db (n # n' # others) of
                       Inl e \<Rightarrow> Inl e
                     | Inr scrolls \<Rightarrow> Inl (MultipleScrollsFound (map scroll_name scrolls) query)))))"

text \<open>
  The whole method: lowercase the query, load the scrolls when \<open>_scrolls_db\<close> is \<open>None\<close>
  (an exception of the load leaves the method), then search.
\<close>

definition get_by_name :: "(string \<Rightarrow> string \<Rightarrow> int) \<Rightarrow> (nat \<Rightarrow> response) \<Rightarrow> state \<Rightarrow> string \<Rightarrow> rat
    \<Rightarrow> (error + scroll) \<times> state" where
  "get_by_name partial_ratio http st query threshold =
     (let q = lower query in
      case (if scrolls_db st = None then load_scrolls http st else (Inr (), st)) of
        (Inl e, st') \<Rightarrow> (Inl e, st')
      | (Inr u, st') \<Rightarrow>
          (case scrolls_db st' of
             None \<Rightarrow> (Inl AttributeError, st')
           | Some db \<Rightarrow> (search partial_ratio db q threshold, st')))"

text \<open>The default of the parameter \<open>threshold\<close>: the double nearest to 0.7.\<close>

definition default_threshold :: rat where
  "default_threshold = 3152519739159347 / 4503599627370496"

section \<open>Notions the statements use\<close>

text \<open>
  What one pass of the loading loop stores for a record: the key and the \<open>Scroll\<close>, or
  nothing when the pass raises.
\<close>

definition entry :: "json \<Rightarrow> (string \<times> scroll) option" where
  "entry scroll_data =
     (case Scroll_init scroll_data of
        Inl e \<Rightarrow> None
      | Inr s \<Rightarrow> (case scroll_name s of JStr n \<Rightarrow> Some (lower n, s) | _ \<Rightarrow> None))"




section \<open>Sample inputs\<close>

text \<open>A record of the catalog with every field, and the \<open>Scroll\<close> built from it.\<close>

definition sample_fields :: "int \<Rightarrow> string \<Rightarrow> (string \<times> json) list" where
  "sample_fields i n =
     [(''id'', JInt i), (''name'', JStr n), (''description'', JStr ''''),
      (''kind'', JStr ''CREATURE''), (''types'', JStr ''Beast''),
      (''costgrowth'', JInt 2), (''costorder'', JInt 0), (''costenergy'', JInt 0),
      (''costdecay'', JInt 0), (''ap'', JInt 1), (''ac'', JInt 2), (''hp'', JInt 3),
      (''flavor'', JStr ''''), (''rarity'', JInt 0), (''set'', JInt 1)]"

definition sample_data :: "int \<Rightarrow> string \<Rightarrow> json" where
  "sample_data i n = JObj (sample_fields i n)"

definition sample_scroll :: "int \<Rightarrow> string \<Rightarrow> scroll" where
  "sample_scroll i n =
     \<lparr> scroll_id = JInt i, scroll_name = JStr n, scroll_description = JStr '''',
       scroll_kind = JStr ''CREATURE'', scroll_types = JStr ''Beast'',
       scroll_growth_cost = JInt 2, scroll_order_cost = JInt 0, scroll_energy_cost = JInt 0,
       scroll_decay_cost = JInt 0, scroll_attack = JInt 1, scroll_countdown = JInt 2,
       scroll_health = JInt 3, scroll_flavor = JStr '''', scroll_rarity = JInt 0,
       scroll_set = JInt 1, scroll_passive_rules = JArr [], scroll_abilities = JArr [] \<rparr>"

text \<open>
  The values of \<open>fuzz.partial_ratio\<close> on the pairs the examples score, worked by hand
  from the library's definition (the best ratio \<open>2M/T\<close> of the shorter string against
  an aligned window of the longer one, times 100, rounded): \<open>fo\<close> is a substring of
  \<open>foo\<close> and of \<open>fon\<close>; \<open>foo\<close> is a substring of \<open>foon\<close>, and \<open>fon\<close> shares two of three
  characters with its best window; \<open>abxy\<close> and \<open>abcd\<close> share two of four. No example
  scores another pair.
\<close>

definition sample_ratio :: "string \<Rightarrow> string \<Rightarrow> int" where
  "sample_ratio q n =
     (if q = ''fo'' \<and> n = ''foo'' then 100
      else if q = ''fo'' \<and> n = ''fon'' then 100
      else if q = ''foon'' \<and> n = ''foo'' then 100
      else if q = ''foon'' \<and> n = ''fon'' then 67
      else if q = ''abxy'' \<and> n = ''abcd'' then 50
      else 0)"

text \<open>The document \<open>{"data": [Foo, Fon]}\<close>.\<close>

definition foo_fon :: json where
  "foo_fon = JObj [(''data'', JArr [sample_data 1 ''Foo'', sample_data 2 ''Fon''])]"

section \<open>Lemmas on the built-in operations\<close>

lemma lower_char_idem: "lower_char (lower_char c) = lower_char c"
  by (simp add: lower_char_def)

lemma lower_idem: "lower (lower s) = lower s"
  by (simp add: lower_def lower_char_idem)

lemma lower_samples:
  "lower ''FO'' = ''fo''" "lower ''fo'' = ''fo''" "lower ''Foo'' = ''foo''" "lower ''Fon'' = ''fon''"
  "lower ''foon'' = ''foon''" "lower ''abxy'' = ''abxy''" "lower ''abcd'' = ''abcd''"
  "lower ''FOO'' = ''foo''" "lower ''anything'' = ''anything''"
  by code_simp+

lemma map_of_setitem: "map_of (setitem k v d) = (map_of d)(k \<mapsto> v)"
  by (induction d) (auto simp: fun_eq_iff)

lemma keys_setitem:
  "map fst (setitem k v d) = (if k \<in> set (map fst d) then map fst d else map fst d @ [k])"
  by (induction d) auto

lemma distinct_setitem: "distinct (map fst d) \<Longrightarrow> distinct (map fst (setitem k v d))"
  by (simp add: keys_setitem)

lemma setitem_fresh: "k \<notin> set (map fst d) \<Longrightarrow> setitem k v d = d @ [(k, v)]"
  by (induction d) auto

lemma getitems_present:
  "set ks \<subseteq> fst ` set db \<Longrightarrow> getitems db ks = Inr (map (\<lambda>k. the (map_of db k)) ks)"
proof (induction ks)
  case Nil
  then show ?case by simp
next
  case (Cons k ks)
  then obtain v where "map_of db k = Some v"
    by (metis list.set_intros(1) subsetD map_of_eq_None_iff not_None_eq)
  with Cons show ?case by (simp add: getitem_def)
qed

section \<open>Lemmas on the samples\<close>

lemma Scroll_init_sample: "Scroll_init (sample_data i n) = Inr (sample_scroll i n)"
  by (simp add: Scroll_init_def sample_data_def sample_fields_def sample_scroll_def subscript_def
      getitem_def get_default_def)

lemma scroll_name_sample: "scroll_name (sample_scroll i n) = JStr n"
  by (simp add: sample_scroll_def)

lemma entry_sample: "entry (sample_data i n) = Some (lower n, sample_scroll i n)"
  by (simp add: entry_def Scroll_init_sample scroll_name_sample)

lemma load_foo_fon:
  "load_scrolls (\<lambda>_. Document foo_fon) \<lparr>scrolls_db = None, requests = 0\<rparr> =
     (Inr (), \<lparr>scrolls_db = Some [(''foo'', sample_scroll 1 ''Foo''), (''fon'', sample_scroll 2 ''Fon'')],
               requests = 1\<rparr>)"
  by (simp add: load_scrolls_def foo_fon_def get_default_def Scroll_init_sample scroll_name_sample
      lower_samples)

section \<open>Lemmas on the fuzzy search\<close>

text \<open>
  Over the distinct keys of a dict the scoring loop is a filter: it keeps, in the order
  of the keys, the names whose score is at least the threshold.
\<close>

lemma score_loop_distinct:
  "distinct ks \<Longrightarrow> set ks \<inter> set (map fst acc) = {} \<Longrightarrow>
   score_loop pr q thr ks acc =
     acc @ map (\<lambda>n. (n, round2 (pr q n))) (filter (\<lambda>n. thr \<le> of_int (round2 (pr q n))) ks)"
proof (induction ks arbitrary: acc)
  case Nil
  then show ?case by simp
next
  case (Cons n ks)
  from Cons.prems have fresh: "n \<notin> set (map fst acc)" and d: "distinct ks" and nn: "n \<notin> set ks"
    and disj: "set ks \<inter> set (map fst acc) = {}" by auto
  show ?case
  proof (cases "thr \<le> of_int (round2 (pr q n))")
    case True
    have "set ks \<inter> set (map fst (acc @ [(n, round2 (pr q n))])) = {}"
      using disj nn by auto
    from Cons.IH[OF d this] True fresh show ?thesis
      by (simp add: setitem_fresh Let_def)
  next
    case False
    with Cons.IH[OF d disj] show ?thesis by (simp add: Let_def)
  qed
qed

lemma name_scores_distinct:
  "distinct (map fst db) \<Longrightarrow>
   name_scores pr q thr db =
     map (\<lambda>n. (n, round2 (pr q n))) (filter (\<lambda>n. thr \<le> of_int (round2 (pr q n))) (map fst db))"
  by (simp add: name_scores_def score_loop_distinct)

lemma score_loop_none:
  "\<forall>n\<in>set ks. \<not> thr \<le> of_int (round2 (pr q n)) \<Longrightarrow> score_loop pr q thr ks acc = acc"
  by (induction ks) (simp_all add: Let_def)


lemma max_score_Nil: "max_score [] = Inl ValueError"
  by (simp add: max_score_def)

lemma closest_items_map:
  "closest_items (map (\<lambda>n. (n, g n)) xs) m = filter (\<lambda>n. g n = m) xs"
  by (induction xs) (simp_all add: closest_items_def)

lemma get_by_name_populated:
  "scrolls_db st = Some db \<Longrightarrow>
   get_by_name pr http st query thr = (search pr db (lower query) thr, st)"
  by (simp add: get_by_name_def)

lemma get_by_name_uninitialized:
  "scrolls_db st = None \<Longrightarrow>
   get_by_name pr http st query thr =
     (case load_scrolls http st of
        (Inl e, st') \<Rightarrow> (Inl e, st')
      | (Inr u, st') \<Rightarrow>
          (case scrolls_db st' of
             None \<Rightarrow> (Inl AttributeError, st')
           | Some db \<Rightarrow> (search pr db (lower query) thr, st')))"
  by (simp add: get_by_name_def)


lemma search_many:
  assumes "map_of db q = None" "max_score (name_scores pr q thr db) = Inr m"
    "closest_items (name_scores pr q thr db) m = n # n' # others"
    "getitems db (n # n' # others) = Inr scrolls"
  shows "search pr db q thr = Inl (MultipleScrollsFound (map scroll_name scrolls) q)"
  using assms by (simp add: search_def)

lemma closest_items_name_scores:
  "distinct (map fst db) \<Longrightarrow>
   closest_items (name_scores pr q thr db) m =
     filter (\<lambda>n. thr \<le> of_int (round2 (pr q n)) \<and> round2 (pr q n) = m) (map fst db)"
  by (simp add: name_scores_distinct closest_items_map)

section \<open>Lemmas on the loading\<close>

lemma requests_load_scrolls: "requests (snd (load_scrolls http st)) = Suc (requests st)"
  by (simp add: load_scrolls_def Let_def split: response.splits json.splits sum.splits prod.splits)

lemma requests_get_by_name_uninitialized:
  "scrolls_db st = None \<Longrightarrow> requests (snd (get_by_name pr http st query thr)) = Suc (requests st)"
  using requests_load_scrolls [of http st]
  by (auto simp: get_by_name_uninitialized split: prod.splits sum.splits option.splits)

section \<open>Lemmas on the message, the records and the loading loop\<close>

lemma strs_JStr: "strs (map JStr names) = Inr names"
  by (induction names) simp_all

lemma join_contains: "n \<in> set names \<Longrightarrow> \<exists>a b. join sep names = a @ n @ b"
proof (induction sep names rule: join.induct)
  case (1 sep)
  then show ?case by simp
next
  case (2 sep x)
  then have "join sep [x] = [] @ n @ []" by simp
  then show ?case by blast
next
  case (3 sep x y ys)
  show ?case
  proof (cases "n = x")
    case True
    then have "join sep (x # y # ys) = [] @ n @ (sep @ join sep (y # ys))" by simp
    then show ?thesis by blast
  next
    case False
    with "3.prems" have "n \<in> set (y # ys)" by simp
    from "3.IH" [OF this] obtain a b where "join sep (y # ys) = a @ n @ b" by blast
    then have "join sep (x # y # ys) = (x @ sep @ a) @ n @ b" by simp
    then show ?thesis by blast
  qed
qed

lemma load_loop_step:
  "entry x = Some (k, s) \<Longrightarrow> load_loop (x # xs) db = load_loop xs (setitem k s db)"
  by (auto simp: entry_def split: sum.splits json.splits)

lemma entry_key: "entry x = Some (k, s) \<Longrightarrow> \<exists>n. scroll_name s = JStr n \<and> k = lower n"
  by (auto simp: entry_def split: sum.splits json.splits)

lemma load_loop_entries:
  "list_all (\<lambda>i. entry i \<noteq> None) items \<Longrightarrow>
   \<exists>db'. load_loop items db = (Inr (), db')
        \<and> map_of db' = map_of db ++ map_of (rev (map (the \<circ> entry) items))"
proof (induction items arbitrary: db)
  case Nil
  then show ?case by simp
next
  case (Cons x xs)
  then obtain k s where e: "entry x = Some (k, s)" by auto
  from Cons.prems have "list_all (\<lambda>i. entry i \<noteq> None) xs" by simp
  from Cons.IH [OF this, of "setitem k s db"] obtain db' where
    l: "load_loop xs (setitem k s db) = (Inr (), db')" and
    m: "map_of db' = map_of (setitem k s db) ++ map_of (rev (map (the \<circ> entry) xs))"
    by blast
  have "map_of db' = map_of db ++ map_of (rev (map (the \<circ> entry) (x # xs)))"
    unfolding m by (simp add: map_of_setitem e fun_eq_iff map_add_def split: option.splits)
  with l show ?case by (simp only: load_loop_step [OF e]) blast
qed

lemma load_scrolls_document:
  assumes "http (requests st) = Document (JObj doc)"
    and "get_default doc ''data'' (JArr []) = JArr items"
    and "load_loop items [] = (r, db)"
  shows "load_scrolls http st = (r, st\<lparr>requests := Suc (requests st), scrolls_db := Some db\<rparr>)"
  using assms by (simp add: load_scrolls_def)





section \<open>The claims\<close>

text \<open>
  C1. The claim: a query that is no cached name and that no cached name scores at or
  above the threshold (so every query on an empty catalog) ends in \<open>ScrollNotFound\<close>,
  never in an error of \<open>max\<close> on an empty sequence. The code does the opposite:
  \<open>name_scores\<close> is empty, \<open>max(name_scores.values())\<close> raises \<open>ValueError\<close>, and the
  branch \<open>raise ScrollNotFound\<close> below it is never reached. The cache is left as it was.
\<close>

theorem get_by_name_no_candidate_raises_ValueError:
  assumes "scrolls_db st = Some db"
    and "map_of db (lower query) = None"
    and "\<forall>n\<in>set (map fst db). \<not> threshold \<le> of_int (round2 (pr (lower query) n))"
  shows "get_by_name pr http st query threshold = (Inl ValueError, st)"
proof -
  have "name_scores pr (lower query) threshold db = []"
    using assms(3) by (simp add: name_scores_def score_loop_none)
  then have "search pr db (lower query) threshold = Inl ValueError"
    using assms(2) by (simp add: search_def max_score_Nil)
  then show ?thesis using assms(1) by (simp add: get_by_name_populated)
qed

theorem get_by_name_no_candidate_raises_ValueError_witness:
  "get_by_name sample_ratio (\<lambda>_. RequestFailed) \<lparr>scrolls_db = Some [], requests = 1\<rparr>
      ''anything'' default_threshold
   = (Inl ValueError, \<lparr>scrolls_db = Some [], requests = 1\<rparr>)"
  using get_by_name_no_candidate_raises_ValueError
      [of "\<lparr>scrolls_db = Some [], requests = 1\<rparr>" "[]" "''anything''"
          default_threshold sample_ratio "\<lambda>_. RequestFailed"]
  by simp

text \<open>
  The same from an uninitialized cache: the document \<open>{"data": []}\<close> populates an empty
  catalog, and the first query already raises \<open>ValueError\<close>, whatever the scorer.
\<close>

lemma get_by_name_empty_catalog_first_call:
  "get_by_name pr (\<lambda>_. Document (JObj [(''data'', JArr [])])) \<lparr>scrolls_db = None, requests = 0\<rparr>
      ''anything'' default_threshold
   = (Inl ValueError, \<lparr>scrolls_db = Some [], requests = 1\<rparr>)"
  by (simp add: get_by_name_def load_scrolls_def get_default_def search_def name_scores_def
      max_score_def)

text \<open>
  C2. The claim: a name is kept when its score out of 100 is at least the threshold on
  that scale, and the default 0.70 means 70, so a name scoring below 70 is dropped.
  The code compares the score out of 100 with the threshold as passed, and the default
  is the number 0.7: the catalog \<open>{abcd}\<close> and the query \<open>abxy\<close>, which scores 50, give
  the record of \<open>abcd\<close> and not \<open>ScrollNotFound\<close>.
\<close>

theorem default_threshold_keeps_score_50:
  "get_by_name sample_ratio (\<lambda>_. Document (JObj [(''data'', JArr [sample_data 7 ''abcd''])]))
      \<lparr>scrolls_db = None, requests = 0\<rparr> ''abxy'' default_threshold
   = (Inr (sample_scroll 7 ''abcd''),
      \<lparr>scrolls_db = Some [(''abcd'', sample_scroll 7 ''abcd'')], requests = 1\<rparr>)"
  by (simp add: get_by_name_def load_scrolls_def get_default_def Scroll_init_sample
      scroll_name_sample lower_samples search_def name_scores_def max_score_def
      closest_items_def getitem_def sample_ratio_def round2_def default_threshold_def Let_def)



text \<open>
  C4. For every cached name and every threshold, a query whose lowercased form is that
  name returns the name's record through the exact-match test: the result does not
  depend on the scorer or on the threshold, no request is issued and the cache is left
  as it was.
\<close>

theorem exact_match_short_circuit:
  assumes "scrolls_db st = Some db" and "map_of db (lower query) = Some s"
  shows "get_by_name pr http st query threshold = (Inr s, st)"
  using assms by (simp add: get_by_name_populated search_def)

theorem exact_match_short_circuit_witness:
  "get_by_name sample_ratio (\<lambda>_. RequestFailed)
       \<lparr>scrolls_db = Some [(''foo'', sample_scroll 1 ''Foo''), (''fon'', sample_scroll 2 ''Fon'')],
        requests = 1\<rparr> ''FOO'' 100
     = (Inr (sample_scroll 1 ''Foo''),
        \<lparr>scrolls_db = Some [(''foo'', sample_scroll 1 ''Foo''), (''fon'', sample_scroll 2 ''Fon'')],
         requests = 1\<rparr>)"
  using exact_match_short_circuit
      [of "\<lparr>scrolls_db = Some [(''foo'', sample_scroll 1 ''Foo''), (''fon'', sample_scroll 2 ''Fon'')],
            requests = 1\<rparr>"
          "[(''foo'', sample_scroll 1 ''Foo''), (''fon'', sample_scroll 2 ''Fon'')]"
          "''FOO''" "sample_scroll 1 ''Foo''" sample_ratio "\<lambda>_. RequestFailed" 100]
  by (simp add: lower_samples)

text \<open>
  C5. The claim: when the fetch or the parse of the catalog fails during the lazy load,
  the cache stays uninitialized and the next call fetches again. \<open>_scrolls_db\<close> is set
  to the empty dict as soon as \<open>json.loads\<close> has returned, before the records are read:
  a failure from there on leaves a dict behind. The document of Foo and of a record
  with only \<open>id\<close> and \<open>name\<close> raises \<open>KeyError('description')\<close> on the first call and
  leaves the cache holding Foo alone; the second call issues no request and answers
  from that cache.
\<close>

theorem population_failure_is_not_retried:
  "get_by_name sample_ratio
       (\<lambda>_. Document (JObj [(''data'',
          JArr [sample_data 1 ''Foo'', JObj [(''id'', JInt 2), (''name'', JStr ''Fon'')]])]))
       \<lparr>scrolls_db = None, requests = 0\<rparr> ''foon'' 70
     = (Inl (KeyError ''description''),
        \<lparr>scrolls_db = Some [(''foo'', sample_scroll 1 ''Foo'')], requests = 1\<rparr>)
   \<and> get_by_name sample_ratio
       (\<lambda>_. Document (JObj [(''data'',
          JArr [sample_data 1 ''Foo'', JObj [(''id'', JInt 2), (''name'', JStr ''Fon'')]])]))
       \<lparr>scrolls_db = Some [(''foo'', sample_scroll 1 ''Foo'')], requests = 1\<rparr> ''foon'' 70
     = (Inr (sample_scroll 1 ''Foo''),
        \<lparr>scrolls_db = Some [(''foo'', sample_scroll 1 ''Foo'')], requests = 1\<rparr>)"
proof -
  have a: "Scroll_init (JObj [(''id'', JInt 2), (''name'', JStr ''Fon'')])
      = Inl (KeyError ''description'')"
    by (simp add: Scroll_init_def subscript_def getitem_def)
  have first: "get_by_name sample_ratio
       (\<lambda>_. Document (JObj [(''data'',
          JArr [sample_data 1 ''Foo'', JObj [(''id'', JInt 2), (''name'', JStr ''Fon'')]])]))
       \<lparr>scrolls_db = None, requests = 0\<rparr> ''foon'' 70
     = (Inl (KeyError ''description''),
        \<lparr>scrolls_db = Some [(''foo'', sample_scroll 1 ''Foo'')], requests = 1\<rparr>)"
    by (simp add: get_by_name_def load_scrolls_def get_default_def Scroll_init_sample
        scroll_name_sample lower_samples a)
  have second: "get_by_name sample_ratio
       (\<lambda>_. Document (JObj [(''data'',
          JArr [sample_data 1 ''Foo'', JObj [(''id'', JInt 2), (''name'', JStr ''Fon'')]])]))
       \<lparr>scrolls_db = Some [(''foo'', sample_scroll 1 ''Foo'')], requests = 1\<rparr> ''foon'' 70
     = (Inr (sample_scroll 1 ''Foo''),
        \<lparr>scrolls_db = Some [(''foo'', sample_scroll 1 ''Foo'')], requests = 1\<rparr>)"
    by (simp add: get_by_name_def lower_samples search_def name_scores_def max_score_def
        closest_items_def getitem_def sample_ratio_def round2_def Let_def)
  from first second show ?thesis by (intro conjI)
qed

text \<open>
  C5 as amended: when the request fails or \<open>json.loads\<close> rejects the text during the
  lazy load, the exception leaves \<open>get_by_name\<close>, \<open>_scrolls_db\<close> is still \<open>None\<close> (only the
  request counter has moved), and the next call, whatever its arguments, issues a
  request again.
\<close>

theorem failed_fetch_leaves_cache_uninitialized:
  assumes "scrolls_db st = None"
    and "http (requests st) = RequestFailed \<or> http (requests st) = NotJSON"
  shows "get_by_name pr http st query thr =
           (Inl (if http (requests st) = RequestFailed then ClientError else JSONDecodeError),
            st\<lparr>requests := Suc (requests st)\<rparr>)
         \<and> scrolls_db (snd (get_by_name pr http st query thr)) = None
         \<and> requests (snd (get_by_name pr' http (snd (get_by_name pr http st query thr)) query' thr'))
             = Suc (Suc (requests st))"
proof -
  have r: "get_by_name pr http st query thr =
           (Inl (if http (requests st) = RequestFailed then ClientError else JSONDecodeError),
            st\<lparr>requests := Suc (requests st)\<rparr>)"
    using assms by (auto simp: get_by_name_uninitialized load_scrolls_def)
  have n: "scrolls_db (st\<lparr>requests := Suc (requests st)\<rparr>) = None" using assms(1) by simp
  from requests_get_by_name_uninitialized [OF n, of pr' http query' thr'] r n
  show ?thesis by simp
qed

text \<open>
  The witness: the first request fails, the second returns the document of Foo and
  Fon; the first call raises and leaves the cache uninitialized, the second call issues
  request number two and answers from the catalog it loads.
\<close>

theorem failed_fetch_leaves_cache_uninitialized_witness:
  "get_by_name sample_ratio (\<lambda>n. if n = 0 then RequestFailed else Document foo_fon)
       \<lparr>scrolls_db = None, requests = 0\<rparr> ''foon'' 70
     = (Inl ClientError, \<lparr>scrolls_db = None, requests = 1\<rparr>)
   \<and> requests (snd (get_by_name sample_ratio (\<lambda>n. if n = 0 then RequestFailed else Document foo_fon)
         (snd (get_by_name sample_ratio (\<lambda>n. if n = 0 then RequestFailed else Document foo_fon)
                 \<lparr>scrolls_db = None, requests = 0\<rparr> ''foon'' 70)) ''foon'' 70)) = 2
   \<and> get_by_name sample_ratio (\<lambda>n. if n = 0 then RequestFailed else Document foo_fon)
       \<lparr>scrolls_db = None, requests = 1\<rparr> ''foon'' 70
     = (Inr (sample_scroll 1 ''Foo''),
        \<lparr>scrolls_db = Some [(''foo'', sample_scroll 1 ''Foo''), (''fon'', sample_scroll 2 ''Fon'')],
         requests = 2\<rparr>)"
proof -
  let ?http = "\<lambda>n::nat. if n = 0 then RequestFailed else Document foo_fon"
  let ?st = "\<lparr>scrolls_db = None, requests = 0\<rparr>"
  have h1: "scrolls_db ?st = None" by simp
  have h2: "?http (requests ?st) = RequestFailed \<or> ?http (requests ?st) = NotJSON" by simp
  note t = failed_fetch_leaves_cache_uninitialized
      [of ?st ?http sample_ratio "''foon''" 70 sample_ratio "''foon''" 70, OF h1 h2]
  from t have a: "get_by_name sample_ratio ?http ?st ''foon'' 70
      = (Inl ClientError, \<lparr>scrolls_db = None, requests = 1\<rparr>)" by simp
  from t have b0: "requests (snd (get_by_name sample_ratio ?http
      (snd (get_by_name sample_ratio ?http ?st ''foon'' 70)) ''foon'' 70)) = Suc (Suc (requests ?st))"
    by (rule conjunct2 [THEN conjunct2])
  have "Suc (Suc (requests ?st)) = 2" by simp
  with b0 have b: "requests (snd (get_by_name sample_ratio ?http
      (snd (get_by_name sample_ratio ?http ?st ''foon'' 70)) ''foon'' 70)) = 2"
    by (rule trans)
  have c: "get_by_name sample_ratio ?http \<lparr>scrolls_db = None, requests = 1\<rparr> ''foon'' 70
     = (Inr (sample_scroll 1 ''Foo''),
        \<lparr>scrolls_db = Some [(''foo'', sample_scroll 1 ''Foo''), (''fon'', sample_scroll 2 ''Fon'')],
         requests = 2\<rparr>)"
    by (simp add: get_by_name_def load_scrolls_def foo_fon_def get_default_def Scroll_init_sample
      scroll_name_sample lower_samples search_def name_scores_def max_score_def
      closest_items_def getitem_def sample_ratio_def round2_def Let_def)
  from a b c show ?thesis by (intro conjI)
qed

text \<open>
  C7. The claim: when more than one name is collected, the \<open>MultipleScrollsFound\<close>
  raised carries the display names of the tied records and the query as the caller
  passed it. The names are carried, in the order of the cache, but the search term is
  the lowercased query: \<open>query\<close> is rebound to \<open>query.lower()\<close> in the first statement.
  The query \<open>FO\<close> on the catalog of Foo and Fon raises with the search term \<open>fo\<close>.
\<close>

theorem ambiguous_search_term_is_not_the_original_query:
  "fst (get_by_name sample_ratio (\<lambda>_. Document foo_fon) \<lparr>scrolls_db = None, requests = 0\<rparr> ''FO'' 70)
     = Inl (MultipleScrollsFound [JStr ''Foo'', JStr ''Fon''] ''fo'')
   \<and> fst (get_by_name sample_ratio (\<lambda>_. Document foo_fon) \<lparr>scrolls_db = None, requests = 0\<rparr> ''FO'' 70)
     \<noteq> Inl (MultipleScrollsFound [JStr ''Foo'', JStr ''Fon''] ''FO'')"
  by (simp add: get_by_name_def load_foo_fon lower_samples search_def name_scores_def max_score_def
      closest_items_def getitem_def sample_ratio_def round2_def Let_def scroll_name_sample)

text \<open>
  C7 as amended: when the lowercased query is no cached name and more than one name is
  collected, \<open>get_by_name\<close> raises \<open>MultipleScrollsFound\<close> with the \<open>name\<close> attributes of
  the collected names' records, in the order of \<open>closest_items\<close>, and with the
  lowercased query; the cache is left as it was.
\<close>

theorem ambiguous_carries_names_and_lowercased_query:
  assumes "scrolls_db st = Some db" and "distinct (map fst db)"
    and "map_of db (lower query) = None"
    and "max_score (name_scores pr (lower query) thr db) = Inr m"
    and "length (closest_items (name_scores pr (lower query) thr db) m) > 1"
  shows "get_by_name pr http st query thr =
           (Inl (MultipleScrollsFound
                  (map (\<lambda>k. scroll_name (the (map_of db k)))
                     (closest_items (name_scores pr (lower query) thr db) m))
                  (lower query)), st)"
proof -
  let ?c = "closest_items (name_scores pr (lower query) thr db) m"
  from assms(5) obtain n n' others where c: "?c = n # n' # others"
    by (cases ?c; cases "tl ?c") auto
  have "set ?c \<subseteq> set (map fst db)"
    using assms(2) by (auto simp: closest_items_name_scores)
  then have "getitems db ?c = Inr (map (\<lambda>k. the (map_of db k)) ?c)"
    by (simp add: getitems_present)
  then have g: "getitems db (n # n' # others) = Inr (map (\<lambda>k. the (map_of db k)) ?c)"
    by (simp only: c)
  have "search pr db (lower query) thr =
      Inl (MultipleScrollsFound (map scroll_name (map (\<lambda>k. the (map_of db k)) ?c)) (lower query))"
    using assms(3) assms(4) c g by (rule search_many)
  then show ?thesis using assms(1) by (simp add: get_by_name_populated comp_def)
qed

theorem ambiguous_carries_names_and_lowercased_query_witness:
  "get_by_name sample_ratio (\<lambda>_. RequestFailed)
       \<lparr>scrolls_db = Some [(''foo'', sample_scroll 1 ''Foo''), (''fon'', sample_scroll 2 ''Fon'')],
        requests = 1\<rparr> ''FO'' 70
     = (Inl (MultipleScrollsFound [JStr ''Foo'', JStr ''Fon''] ''fo''),
        \<lparr>scrolls_db = Some [(''foo'', sample_scroll 1 ''Foo''), (''fon'', sample_scroll 2 ''Fon'')],
         requests = 1\<rparr>)"
proof -
  let ?db = "[(''foo'', sample_scroll 1 ''Foo''), (''fon'', sample_scroll 2 ''Fon'')]"
  let ?st = "\<lparr>scrolls_db = Some ?db, requests = 1\<rparr>"
  have lo: "lower ''FO'' = ''fo''" by (rule lower_samples)
  have ns: "name_scores sample_ratio ''fo'' 70 ?db = [(''foo'', 100), (''fon'', 100)]"
    by (simp add: name_scores_def sample_ratio_def round2_def Let_def)
  have h1: "scrolls_db ?st = Some ?db" by simp
  have h2: "distinct (map fst ?db)" by simp
  have h3: "map_of ?db (lower ''FO'') = None" by (simp add: lo)
  have h4: "max_score (name_scores sample_ratio (lower ''FO'') 70 ?db) = Inr 100"
    by (simp add: lo ns max_score_def)
  have h5: "length (closest_items (name_scores sample_ratio (lower ''FO'') 70 ?db) 100) > 1"
    by (simp add: lo ns closest_items_def)
  from ambiguous_carries_names_and_lowercased_query [OF h1 h2 h3 h4 h5, of "\<lambda>_. RequestFailed"]
  show ?thesis
    by (simp add: lo ns closest_items_def scroll_name_sample)
qed

text \<open>
  C8. The message of \<open>MultipleScrollsFound\<close>: with five names or fewer it ends with all
  the names joined by a comma and a space, so every name stands in it; with more than
  five names it is the fixed sentence around the search term, whatever the names are.
\<close>

theorem MultipleScrollsFound_str_message:
  "(length names \<le> 5 \<longrightarrow>
      MultipleScrollsFound_str (map JStr names) search_term =
        Inr (''Multiple scrolls match '' @ [CHR 0x27] @ search_term @ [CHR 0x27] @ ''z: ''
               @ join '', '' names)
      \<and> (\<forall>n\<in>set names. \<exists>a b. join '', '' names = a @ n @ b))
   \<and> (length scrolls > 5 \<longrightarrow>
      MultipleScrollsFound_str scrolls search_term =
        Inr (''Too many scrolls matches your query '' @ [CHR 0x27] @ search_term @ [CHR 0x27]))"
  by (simp add: MultipleScrollsFound_str_def strs_JStr join_contains)

theorem MultipleScrollsFound_str_message_witness:
  "MultipleScrollsFound_str [JStr ''Foo'', JStr ''Fon''] ''fo'' =
     Inr (''Multiple scrolls match '' @ [CHR 0x27] @ ''fo'' @ [CHR 0x27] @ ''z: Foo, Fon'')
   \<and> MultipleScrollsFound_str [JStr ''a'', JStr ''b'', JStr ''c'', JStr ''d'', JStr ''e'', JStr ''f''] ''fo'' =
     Inr (''Too many scrolls matches your query '' @ [CHR 0x27] @ ''fo'' @ [CHR 0x27])"
  using MultipleScrollsFound_str_message [of "[''Foo'', ''Fon'']" "''fo''"
      "[JStr ''a'', JStr ''b'', JStr ''c'', JStr ''d'', JStr ''e'', JStr ''f'']"]
  by simp




text \<open>
  C10. The load keys each record by its lowercased name, and of the records that share
  a lowercased name the last one in the list is the one the cache holds: when every
  record of the list is one the loop body accepts, the load succeeds, whatever names
  repeat, and a record that no later record shares its key with is the value of its
  key, which is its lowercased name.
\<close>

theorem duplicate_names_last_write_wins:
  assumes "http (requests st) = Document (JObj doc)"
    and "get_default doc ''data'' (JArr []) = JArr (pre @ x # post)"
    and "list_all (\<lambda>i. entry i \<noteq> None) (pre @ x # post)"
    and "entry x = Some (k, s)"
    and "\<forall>y\<in>set post. \<forall>s'. entry y \<noteq> Some (k, s')"
  shows "\<exists>db. load_scrolls http st
               = (Inr (), st\<lparr>requests := Suc (requests st), scrolls_db := Some db\<rparr>)
             \<and> map_of db k = Some s
             \<and> (\<exists>n. scroll_name s = JStr n \<and> k = lower n)"
proof -
  from load_loop_entries [OF assms(3), of "[]"] obtain db where
    l: "load_loop (pre @ x # post) [] = (Inr (), db)" and
    m: "map_of db = map_of [] ++ map_of (rev (map (the \<circ> entry) (pre @ x # post)))"
    by blast
  have "k \<notin> fst ` set (rev (map (the \<circ> entry) post))"
  proof
    assume "k \<in> fst ` set (rev (map (the \<circ> entry) post))"
    then obtain y where y: "y \<in> set post" and f: "fst (the (entry y)) = k" by auto
    from assms(3) y have "entry y \<noteq> None" by (simp add: list_all_iff)
    then obtain k' s' where "entry y = Some (k', s')" by (cases "entry y") auto
    with f assms(5) y show False by auto
  qed
  then have "map_of (rev (map (the \<circ> entry) post)) k = None"
    by (simp only: map_of_eq_None_iff not_False_eq_True)
  then have "map_of db k = Some s"
    unfolding m by (simp add: map_add_def assms(4))
  moreover from assms(1,2) l have "load_scrolls http st
      = (Inr (), st\<lparr>requests := Suc (requests st), scrolls_db := Some db\<rparr>)"
    by (simp add: load_scrolls_document)
  moreover from assms(4) have "\<exists>n. scroll_name s = JStr n \<and> k = lower n" by (rule entry_key)
  ultimately show ?thesis by blast
qed

theorem duplicate_names_last_write_wins_witness:
  "(\<exists>db. load_scrolls
       (\<lambda>_. Document (JObj [(''data'',
          JArr [sample_data 1 ''Foo'', sample_data 3 ''FOO'', sample_data 2 ''Fon''])]))
       \<lparr>scrolls_db = None, requests = 0\<rparr>
       = (Inr (), \<lparr>scrolls_db = Some db, requests = 1\<rparr>)
     \<and> map_of db ''foo'' = Some (sample_scroll 3 ''FOO''))
   \<and> load_scrolls
       (\<lambda>_. Document (JObj [(''data'',
          JArr [sample_data 1 ''Foo'', sample_data 3 ''FOO'', sample_data 2 ''Fon''])]))
       \<lparr>scrolls_db = None, requests = 0\<rparr>
     = (Inr (), \<lparr>scrolls_db = Some [(''foo'', sample_scroll 3 ''FOO''), (''fon'', sample_scroll 2 ''Fon'')],
                 requests = 1\<rparr>)"
proof -
  let ?doc = "[(''data'', JArr [sample_data 1 ''Foo'', sample_data 3 ''FOO'', sample_data 2 ''Fon''])]"
  let ?http = "\<lambda>_::nat. Document (JObj ?doc)"
  let ?st = "\<lparr>scrolls_db = None, requests = 0\<rparr>"
  have h1: "?http (requests ?st) = Document (JObj ?doc)" by simp
  have h2: "get_default ?doc ''data'' (JArr [])
      = JArr ([sample_data 1 ''Foo''] @ sample_data 3 ''FOO'' # [sample_data 2 ''Fon''])"
    by (simp add: get_default_def)
  have h3: "list_all (\<lambda>i. entry i \<noteq> None)
      ([sample_data 1 ''Foo''] @ sample_data 3 ''FOO'' # [sample_data 2 ''Fon''])"
    by (simp add: entry_sample)
  have h4: "entry (sample_data 3 ''FOO'') = Some (''foo'', sample_scroll 3 ''FOO'')"
    by (simp add: entry_sample lower_samples)
  have h5: "\<forall>y\<in>set [sample_data 2 ''Fon'']. \<forall>s'. entry y \<noteq> Some (''foo'', s')"
    by (simp add: entry_sample lower_samples)
  from duplicate_names_last_write_wins [of ?http ?st ?doc "[sample_data 1 ''Foo'']" "sample_data 3 ''FOO''"
      "[sample_data 2 ''Fon'']" "''foo''" "sample_scroll 3 ''FOO''", OF h1 h2 h3 h4 h5]
  have a: "\<exists>db. load_scrolls ?http ?st = (Inr (), \<lparr>scrolls_db = Some db, requests = 1\<rparr>)
     \<and> map_of db ''foo'' = Some (sample_scroll 3 ''FOO'')"
    by auto
  have b: "load_scrolls ?http ?st
     = (Inr (), \<lparr>scrolls_db = Some [(''foo'', sample_scroll 3 ''FOO''), (''fon'', sample_scroll 2 ''Fon'')],
                 requests = 1\<rparr>)"
    by (simp add: load_scrolls_def get_default_def Scroll_init_sample scroll_name_sample
        lower_samples)
  from a b show ?thesis by (intro conjI)
qed


end
